theory Spec2Isabelle
  imports Main "HOL-Library.Multiset"
begin

section \<open>Data model (types/task.ts)\<close>

text \<open>
  A JavaScript \<open>Date\<close> is its time value: milliseconds since the epoch, an integer.
  The dates of a task and the readings of the clock are time values; an Invalid Date
  (time value NaN) is not task data, and arises below only from the Date constructor.
  A field of type \<open>T | null\<close> is a \<open>T option\<close>. The fields \<open>id\<close>, \<open>total\<close> and
  \<open>open\<close> of the source are \<open>task_id\<close>, \<open>total_count\<close> and \<open>open_count\<close> here.
\<close>

type_synonym date = int

datatype task_type = ISSUE | PULL_REQUEST | DRAFT_ISSUE

datatype task_state = OPEN | CLOSED | MERGED

record task =
  task_id :: string
  githubId :: string
  title :: string
  number :: int
  type :: task_type
  state :: task_state
  status :: "string option"
  repository :: "string option"
  assignees :: "string list"
  priority :: "string option"
  createdAt :: date
  updatedAt :: date
  dueDate :: "date option"
  addedToProjectAt :: "date option"

record priority_breakdown =
  p0 :: nat
  p1 :: nat
  noPriority :: nat
  p0List :: "task list"
  p1List :: "task list"
  noPriorityList :: "task list"

record task_stats =
  total_count :: nat
  open_count :: nat
  closed :: nat
  overdue :: nat
  overdueList :: "task list"
  noTechHandoffETA :: nat
  noTechHandoffETAList :: "task list"
  noTechHandoffETAByPriority :: priority_breakdown
  unassignedByPriority :: priority_breakdown

section \<open>The runtime: system clock, time zone, calendar, strings\<close>

text \<open>
  The system clock is the sequence of time values that the successive calls of
  \<open>new Date()\<close> will return. A call takes the first reading and leaves the rest.
\<close>

type_synonym clock = "nat \<Rightarrow> date"

definition newDate :: "clock \<Rightarrow> date \<times> clock" where
  "newDate c = (c 0, \<lambda>n. c (Suc n))"

definition frozenClock :: "date \<Rightarrow> clock" where
  "frozenClock now = (\<lambda>n. now)"

text \<open>
  The host's time zone gives the offset of local time from UTC, in milliseconds:
  \<open>utcOffset\<close> at an instant (ECMAScript's \<open>LocalTZA(t, true)\<close>) and \<open>localOffset\<close>
  at a local time value (\<open>LocalTZA(t, false)\<close>). Both may change with the date, as
  they do where daylight-saving time is kept.
\<close>

record zone =
  utcOffset :: "int \<Rightarrow> int"
  localOffset :: "int \<Rightarrow> int"

definition LocalTime :: "zone \<Rightarrow> int \<Rightarrow> int" where
  "LocalTime z t = t + utcOffset z t"

definition UTC :: "zone \<Rightarrow> int \<Rightarrow> int" where
  "UTC z t = t - localOffset z t"

text \<open>
  The calendar of ECMAScript (Date objects, "Day Number and Time within Day" to
  "MakeDate"), on integers. \<open>YearFromTime t\<close> is the largest year \<open>y\<close> with
  \<open>TimeFromYear y \<le> t\<close>; it is computed from the mean length of a year, 146097 days
  in 400 years, which is off by at most one.
\<close>

definition msPerDay :: int where
  "msPerDay = 86400000"

definition Day :: "int \<Rightarrow> int" where
  "Day t = t div msPerDay"

definition DaysInYear :: "int \<Rightarrow> int" where
  "DaysInYear y =
     (if y mod 4 \<noteq> 0 then 365
      else if y mod 100 \<noteq> 0 then 366
      else if y mod 400 \<noteq> 0 then 365
      else 366)"

definition DayFromYear :: "int \<Rightarrow> int" where
  "DayFromYear y =
     365 * (y - 1970) + (y - 1969) div 4 - (y - 1901) div 100 + (y - 1601) div 400"

definition yearFromDay :: "int \<Rightarrow> int" where
  "yearFromDay d =
     (let y = 1970 + (400 * d) div 146097
      in if DayFromYear (y + 1) \<le> d then y + 1
         else if DayFromYear y \<le> d then y
         else y - 1)"

definition YearFromTime :: "int \<Rightarrow> int" where
  "YearFromTime t = yearFromDay (Day t)"

definition leapDays :: "int \<Rightarrow> int" where
  "leapDays y = (if DaysInYear y = 366 then 1 else 0)"

definition InLeapYear :: "int \<Rightarrow> int" where
  "InLeapYear t = leapDays (YearFromTime t)"

definition DayWithinYear :: "int \<Rightarrow> int" where
  "DayWithinYear t = Day t - DayFromYear (YearFromTime t)"

text \<open>The day within the year on which month \<open>m\<close> (0 to 11) begins.\<close>

definition monthStart :: "int \<Rightarrow> int \<Rightarrow> int" where
  "monthStart leap m =
     (if m = 0 then 0
      else if m = 1 then 31
      else if m = 2 then 59 + leap
      else if m = 3 then 90 + leap
      else if m = 4 then 120 + leap
      else if m = 5 then 151 + leap
      else if m = 6 then 181 + leap
      else if m = 7 then 212 + leap
      else if m = 8 then 243 + leap
      else if m = 9 then 273 + leap
      else if m = 10 then 304 + leap
      else 334 + leap)"

definition MonthFromTime :: "int \<Rightarrow> int" where
  "MonthFromTime t =
     (let d = DayWithinYear t; leap = InLeapYear t
      in if d < 31 then 0
         else if d < 59 + leap then 1
         else if d < 90 + leap then 2
         else if d < 120 + leap then 3
         else if d < 151 + leap then 4
         else if d < 181 + leap then 5
         else if d < 212 + leap then 6
         else if d < 243 + leap then 7
         else if d < 273 + leap then 8
         else if d < 304 + leap then 9
         else if d < 334 + leap then 10
         else 11)"

definition DateFromTime :: "int \<Rightarrow> int" where
  "DateFromTime t = DayWithinYear t - monthStart (InLeapYear t) (MonthFromTime t) + 1"

text \<open>
  \<open>MakeDay\<close>: the day number of the first of the month, plus the date, less one.
\<close>

definition MakeDay :: "int \<Rightarrow> int \<Rightarrow> int \<Rightarrow> int" where
  "MakeDay year month dt =
     (let ym = year + month div 12; mn = month mod 12
      in DayFromYear ym + monthStart (leapDays ym) mn + dt - 1)"

definition MakeDate :: "int \<Rightarrow> int \<Rightarrow> int" where
  "MakeDate day time = day * msPerDay + time"

text \<open>
  A time value is at most 8.64e15 ms from the epoch. \<open>TimeClip\<close> gives NaN, here
  \<open>None\<close>, for anything beyond: the Date made of it is an Invalid Date.
\<close>

definition maxTime :: int where
  "maxTime = 8640000000000000"

definition TimeClip :: "int \<Rightarrow> date option" where
  "TimeClip t = (if \<bar>t\<bar> > maxTime then None else Some t)"

text \<open>The methods of a Date that the source calls, in the host's zone.\<close>

definition getFullYear :: "zone \<Rightarrow> date \<Rightarrow> int" where
  "getFullYear z d = YearFromTime (LocalTime z d)"

definition getMonth :: "zone \<Rightarrow> date \<Rightarrow> int" where
  "getMonth z d = MonthFromTime (LocalTime z d)"

definition getDate :: "zone \<Rightarrow> date \<Rightarrow> int" where
  "getDate z d = DateFromTime (LocalTime z d)"

text \<open>
  \<open>new Date(year, month, date)\<close>: local midnight of that date as a time value. A
  year from 0 to 99 is taken as 1900 to 1999. The result may be an Invalid Date.
\<close>

definition newDateYMD :: "zone \<Rightarrow> int \<Rightarrow> int \<Rightarrow> int \<Rightarrow> date option" where
  "newDateYMD z year month dt =
     (let yr = (if 0 \<le> year \<and> year \<le> 99 then 1900 + year else year);
          finalDate = MakeDate (MakeDay yr month dt) 0
      in TimeClip (UTC z finalDate))"

text \<open>\<open>a <= b\<close> on two Dates compares their time values; it is false when one is NaN.\<close>

definition leDate :: "date option \<Rightarrow> date option \<Rightarrow> bool" where
  "leDate a b =
     (case a of
        None \<Rightarrow> False
      | Some x \<Rightarrow> (case b of None \<Rightarrow> False | Some y \<Rightarrow> x \<le> y))"

text \<open>
  \<open>String.prototype.toUpperCase\<close> on the ASCII letters; other characters are kept.
  No character outside ASCII has an upper case made of ASCII letters "P" or digits,
  so the tests against "P0" and "P1" below come out as in the runtime.
\<close>

definition upperChar :: "char \<Rightarrow> char" where
  "upperChar ch =
     (let n = (of_char ch :: nat) in if 97 \<le> n \<and> n \<le> 122 then char_of (n - 32) else ch)"

definition toUpperCase :: "string \<Rightarrow> string" where
  "toUpperCase s = map upperChar s"

section \<open>TaskProcessorService (services/task-processor.ts)\<close>

subsection \<open>isOverdue\<close>

text \<open>
  The clock is read only after both early returns, and before the due date is
  truncated. \<open>new Date(task.dueDate)\<close> is a Date of the same time value. The result
  is paired with the clock that the call leaves behind.
\<close>

definition isOverdue :: "zone \<Rightarrow> task \<Rightarrow> clock \<Rightarrow> bool \<times> clock" where
  "isOverdue z t c =
     (case dueDate t of
        None \<Rightarrow> (False, c)
      | Some due \<Rightarrow>
          if state t = CLOSED \<or> state t = MERGED then (False, c)
          else
            (case newDate c of
               (now, c') \<Rightarrow>
                 let today = newDateYMD z (getFullYear z now) (getMonth z now) (getDate z now);
                     dueDateOnly =
                       newDateYMD z (getFullYear z due) (getMonth z due) (getDate z due)
                 in (leDate dueDateOnly today, c')))"

subsection \<open>calculateStats\<close>

text \<open>\<open>tasks.filter((t) => this.isOverdue(t))\<close>: one call of \<open>isOverdue\<close> per task, in order.\<close>

fun filterOverdue :: "zone \<Rightarrow> task list \<Rightarrow> clock \<Rightarrow> task list \<times> clock" where
  "filterOverdue z [] c = ([], c)"
| "filterOverdue z (t # ts) c =
     (case isOverdue z t c of
        (b, c1) \<Rightarrow>
          (case filterOverdue z ts c1 of
             (rest, c2) \<Rightarrow> (if b then t # rest else rest, c2)))"

text \<open>
  \<open>!t.priority\<close> holds of \<open>null\<close> and of the empty string; \<open>t.priority?.toUpperCase()\<close>
  is \<open>undefined\<close> for \<open>null\<close>, which is not \<open>=== 'P0'\<close>. \<open>!t.dueDate\<close> holds exactly
  of \<open>null\<close>, a \<open>Date\<close> object being truthy.
\<close>

definition calculateStats :: "zone \<Rightarrow> task list \<Rightarrow> clock \<Rightarrow> task_stats \<times> clock" where
  "calculateStats z tasks c =
     (let total = length tasks;
          opn = length (filter (\<lambda>t. state t = OPEN) tasks);
          clsd = length (filter (\<lambda>t. state t = CLOSED \<or> state t = MERGED) tasks)
      in case filterOverdue z tasks c of
        (overdueL, c') \<Rightarrow>
          let overdueN = length overdueL;
              noTechHandoffETAL = filter (\<lambda>t. state t = OPEN \<and> dueDate t = None) tasks;
              noTechHandoffETAN = length noTechHandoffETAL;
              noETAP0List = filter
                (\<lambda>t. case priority t of None \<Rightarrow> False | Some p \<Rightarrow> toUpperCase p = ''P0'')
                noTechHandoffETAL;
              noETAP1List = filter
                (\<lambda>t. case priority t of None \<Rightarrow> False | Some p \<Rightarrow> toUpperCase p = ''P1'')
                noTechHandoffETAL;
              noETANoPriorityList = filter
                (\<lambda>t. case priority t of None \<Rightarrow> True
                      | Some p \<Rightarrow> p = [] \<or> (toUpperCase p \<noteq> ''P0'' \<and> toUpperCase p \<noteq> ''P1''))
                noTechHandoffETAL;
              unassignedTasks = filter (\<lambda>t. state t = OPEN \<and> length (assignees t) = 0) tasks;
              p0L = filter
                (\<lambda>t. case priority t of None \<Rightarrow> False | Some p \<Rightarrow> toUpperCase p = ''P0'')
                unassignedTasks;
              p1L = filter
                (\<lambda>t. case priority t of None \<Rightarrow> False | Some p \<Rightarrow> toUpperCase p = ''P1'')
                unassignedTasks;
              noPriorityL = filter
                (\<lambda>t. case priority t of None \<Rightarrow> True
                      | Some p \<Rightarrow> p = [] \<or> (toUpperCase p \<noteq> ''P0'' \<and> toUpperCase p \<noteq> ''P1''))
                unassignedTasks
          in (\<lparr> total_count = total,
                open_count = opn,
                closed = clsd,
                overdue = overdueN,
                overdueList = overdueL,
                noTechHandoffETA = noTechHandoffETAN,
                noTechHandoffETAList = noTechHandoffETAL,
                noTechHandoffETAByPriority =
                  \<lparr> p0 = length noETAP0List,
                    p1 = length noETAP1List,
                    noPriority = length noETANoPriorityList,
                    p0List = noETAP0List,
                    p1List = noETAP1List,
                    noPriorityList = noETANoPriorityList \<rparr>,
                unassignedByPriority =
                  \<lparr> p0 = length p0L,
                    p1 = length p1L,
                    noPriority = length noPriorityL,
                    p0List = p0L,
                    p1List = p1L,
                    noPriorityList = noPriorityL \<rparr> \<rparr>, c'))"

subsection \<open>groupByAssignee\<close>

text \<open>
  A \<open>Map<string, Task[]>\<close> keeps its keys in insertion order: an association list
  with one entry per key. \<open>set\<close> replaces the value of a key that is present and
  appends a new key at the end. \<open>grouped.get(k)!.push(task)\<close> appends to the array
  stored under \<open>k\<close>; were the key missing, \<open>get\<close> would return \<open>undefined\<close> and
  the call of \<open>push\<close> would throw a \<open>TypeError\<close>.
\<close>

datatype error = TypeError

type_synonym grouped = "(string \<times> task list) list"

definition mapHas :: "grouped \<Rightarrow> string \<Rightarrow> bool" where
  "mapHas g k = (map_of g k \<noteq> None)"

fun mapSet :: "grouped \<Rightarrow> string \<Rightarrow> task list \<Rightarrow> grouped" where
  "mapSet [] k v = [(k, v)]"
| "mapSet ((k', v') # g) k v = (if k' = k then (k, v) # g else (k', v') # mapSet g k v)"

definition pushTask :: "grouped \<Rightarrow> string \<Rightarrow> task \<Rightarrow> error + grouped" where
  "pushTask g k t =
     (case map_of g k of
        None \<Rightarrow> Inl TypeError
      | Some arr \<Rightarrow> Inr (mapSet g k (arr @ [t])))"

definition addToGroup :: "grouped \<Rightarrow> string \<Rightarrow> task \<Rightarrow> error + grouped" where
  "addToGroup g k t = pushTask (if \<not> mapHas g k then mapSet g k [] else g) k t"

fun forAssignees :: "string list \<Rightarrow> task \<Rightarrow> grouped \<Rightarrow> error + grouped" where
  "forAssignees [] t g = Inr g"
| "forAssignees (assignee # rest) t g =
     (case addToGroup g assignee t of
        Inl e \<Rightarrow> Inl e
      | Inr g' \<Rightarrow> forAssignees rest t g')"

fun groupLoop :: "task list \<Rightarrow> grouped \<Rightarrow> error + grouped" where
  "groupLoop [] g = Inr g"
| "groupLoop (t # ts) g =
     (case (if length (assignees t) = 0 then addToGroup g ''unassigned'' t
            else forAssignees (assignees t) t g) of
        Inl e \<Rightarrow> Inl e
      | Inr g' \<Rightarrow> groupLoop ts g')"

definition groupByAssignee :: "task list \<Rightarrow> error + grouped" where
  "groupByAssignee tasks = groupLoop tasks []"

subsection \<open>sortByDueDate\<close>

text \<open>
  The comparator of the source, with its three early returns in order. The optional
  parameter \<open>ascending\<close> is \<open>None\<close> when the caller leaves it out.
\<close>

definition compareDueDate :: "bool \<Rightarrow> task \<Rightarrow> task \<Rightarrow> int" where
  "compareDueDate ascending a b =
     (case dueDate a of
        None \<Rightarrow> (case dueDate b of None \<Rightarrow> 0 | Some db \<Rightarrow> 1)
      | Some da \<Rightarrow>
          (case dueDate b of
             None \<Rightarrow> - 1
           | Some db \<Rightarrow> let diff = da - db in if ascending then diff else - diff))"

text \<open>
  \<open>Array.prototype.sort\<close> is stable and, for a consistent comparator, returns the
  elements in the comparator's order; that list is unique, and stable insertion
  computes it. An element goes before the first one it does not compare greater than.
\<close>

fun insertSorted :: "('a \<Rightarrow> 'a \<Rightarrow> int) \<Rightarrow> 'a \<Rightarrow> 'a list \<Rightarrow> 'a list" where
  "insertSorted cmp x [] = [x]"
| "insertSorted cmp x (y # ys) =
     (if cmp x y \<le> 0 then x # y # ys else y # insertSorted cmp x ys)"

fun arraySort :: "('a \<Rightarrow> 'a \<Rightarrow> int) \<Rightarrow> 'a list \<Rightarrow> 'a list" where
  "arraySort cmp [] = []"
| "arraySort cmp (x # xs) = insertSorted cmp x (arraySort cmp xs)"

text \<open>
  Arrays are mutable objects: the heap holds the contents of every array, and an
  array value is its index in the heap. \<open>[...tasks]\<close> allocates a new array with
  the elements of \<open>tasks\<close>; \<open>sort\<close> writes the sorted elements into the array it is
  called on and returns that same array. An array value \<open>r\<close> of a program is always
  one of the heap: \<open>r < length h\<close>.
\<close>

type_synonym heap = "task list list"

definition spread :: "heap \<Rightarrow> nat \<Rightarrow> heap \<times> nat" where
  "spread h r = (h @ [h ! r], length h)"

definition sortInPlace :: "heap \<Rightarrow> nat \<Rightarrow> (task \<Rightarrow> task \<Rightarrow> int) \<Rightarrow> heap \<times> nat" where
  "sortInPlace h r cmp = (h[r := arraySort cmp (h ! r)], r)"

definition sortByDueDate :: "heap \<Rightarrow> nat \<Rightarrow> bool option \<Rightarrow> heap \<times> nat" where
  "sortByDueDate h tasks ascending =
     (let asc = (case ascending of None \<Rightarrow> True | Some b \<Rightarrow> b)
      in case spread h tasks of
           (h1, copy) \<Rightarrow> sortInPlace h1 copy (compareDueDate asc))"

subsection \<open>filterByDateRange\<close>

text \<open>A bound is \<open>null\<close> or a \<open>Date\<close>, which is truthy; dates compare by time value.\<close>

definition filterByDateRange :: "task list \<Rightarrow> date option \<Rightarrow> date option \<Rightarrow> task list" where
  "filterByDateRange tasks startDate endDate =
     filter
       (\<lambda>t. if (case startDate of None \<Rightarrow> False | Some s \<Rightarrow> createdAt t < s) then False
            else if (case endDate of None \<Rightarrow> False | Some e \<Rightarrow> createdAt t > e) then False
            else True)
       tasks"

section \<open>The specification's notions\<close>

text \<open>
  The priority buckets of the specification: a priority that is "P0" up to case is
  in bucket \<open>P0\<close>, one that is "P1" up to case in \<open>P1\<close>, an absent priority and every
  other string in \<open>NO_PRIORITY\<close>.
\<close>

datatype priority_bucket = P0 | P1 | NO_PRIORITY

definition priorityBucket_spec :: "string option \<Rightarrow> priority_bucket" where
  "priorityBucket_spec pr =
     (case pr of
        None \<Rightarrow> NO_PRIORITY
      | Some s \<Rightarrow>
          if s = ''P0'' \<or> s = ''p0'' then P0
          else if s = ''P1'' \<or> s = ''p1'' then P1
          else NO_PRIORITY)"

text \<open>The keys under which the specification groups a task by assignee.\<close>

definition groupKeys_spec :: "task \<Rightarrow> string list" where
  "groupKeys_spec t = (if assignees t = [] then [''unassigned''] else assignees t)"

definition bucketOf :: "grouped \<Rightarrow> string \<Rightarrow> task list" where
  "bucketOf g k = (case map_of g k of None \<Rightarrow> [] | Some v \<Rightarrow> v)"

definition groupSizes :: "grouped \<Rightarrow> nat" where
  "groupSizes g = sum_list (map (\<lambda>kv. length (snd kv)) g)"

text \<open>The date range of the specification, inclusive at both bounds.\<close>

definition inRange_spec :: "date option \<Rightarrow> date option \<Rightarrow> task \<Rightarrow> bool" where
  "inRange_spec startDate endDate t =
     ((case startDate of None \<Rightarrow> True | Some s \<Rightarrow> s \<le> createdAt t)
      \<and> (case endDate of None \<Rightarrow> True | Some e \<Rightarrow> createdAt t \<le> e))"

text \<open>
  What a run of insertions does to a map: \<open>kts\<close> lists the insertions, each a key
  with the task pushed under it, in the order of the pushes.
\<close>

definition extends :: "grouped \<Rightarrow> (string \<times> task) list \<Rightarrow> grouped \<Rightarrow> bool" where
  "extends g kts g' \<longleftrightarrow>
     (\<forall>k. map_of g' k =
        (if k \<in> fst ` set kts
         then Some (bucketOf g k @ map snd (filter (\<lambda>kt. fst kt = k) kts))
         else map_of g k))
     \<and> groupSizes g' = groupSizes g + length kts
     \<and> set (map fst g') = set (map fst g) \<union> fst ` set kts
     \<and> (distinct (map fst g) \<longrightarrow> distinct (map fst g'))"

definition entries_spec :: "task \<Rightarrow> (string \<times> task) list" where
  "entries_spec t = map (\<lambda>k. (k, t)) (groupKeys_spec t)"

text \<open>
  The calendar day of a date, as the specification compares it: the day number of
  its local time. \<open>startOfLocalDay\<close> is the truncation that \<open>isOverdue\<close> applies.
\<close>

definition localDay :: "zone \<Rightarrow> date \<Rightarrow> int" where
  "localDay z d = Day (LocalTime z d)"

definition startOfLocalDay :: "zone \<Rightarrow> date \<Rightarrow> date option" where
  "startOfLocalDay z d = newDateYMD z (getFullYear z d) (getMonth z d) (getDate z d)"

text \<open>
  A date is ordinary when its local year is not one of 0 to 99 and the local midnight
  of its day is a time value. A zone is steady when its offsets differ by less than a
  day.
\<close>

definition ordinaryDate :: "zone \<Rightarrow> date \<Rightarrow> bool" where
  "ordinaryDate z d \<longleftrightarrow>
     \<not> (0 \<le> getFullYear z d \<and> getFullYear z d \<le> 99)
     \<and> \<bar>UTC z (localDay z d * msPerDay)\<bar> \<le> maxTime"

definition steadyZone :: "zone \<Rightarrow> bool" where
  "steadyZone z \<longleftrightarrow> (\<forall>a b. \<bar>localOffset z a - localOffset z b\<bar> < msPerDay)"

text \<open>
  Zones for concrete evaluations: one of a fixed offset, and Central European Time
  with the daylight-saving period of 2024, from 31 March, 01:00 UTC, to 27 October,
  01:00 UTC. A local time that occurs twice or never takes the offset before the change.
\<close>

definition fixedZone :: "int \<Rightarrow> zone" where
  "fixedZone off = \<lparr> utcOffset = (\<lambda>t. off), localOffset = (\<lambda>t. off) \<rparr>"

definition europeBerlin2024 :: zone where
  "europeBerlin2024 =
     \<lparr> utcOffset = (\<lambda>t. if 1711846800000 \<le> t \<and> t < 1729990800000 then 7200000 else 3600000),
       localOffset =
         (\<lambda>t. if 1711854000000 \<le> t \<and> t < 1729998000000 then 7200000 else 3600000) \<rparr>"

text \<open>A task for concrete evaluations; the fields no operation reads are fixed.\<close>

definition exampleTask ::
  "string \<Rightarrow> task_state \<Rightarrow> string list \<Rightarrow> string option \<Rightarrow> date \<Rightarrow> date option \<Rightarrow> task" where
  "exampleTask i st asg pr created due =
     \<lparr> task_id = i, githubId = i, title = ''task'', number = 1, type = ISSUE, state = st,
       status = None, repository = None, assignees = asg, priority = pr,
       createdAt = created, updatedAt = created, dueDate = due, addedToProjectAt = None \<rparr>"

section \<open>Properties\<close>

subsection \<open>The calendar\<close>

lemma div_bounds:
  fixes a n :: int
  assumes "0 < n"
  shows "n * (a div n) \<le> a" and "a < n * (a div n) + n"
proof -
  have "a = n * (a div n) + a mod n" by simp
  moreover have "0 \<le> a mod n" "a mod n < n" using assms by simp_all
  ultimately show "n * (a div n) \<le> a" and "a < n * (a div n) + n" by linarith+
qed

lemma DayFromYear_bounds:
  "400 * DayFromYear (1970 + k) \<le> 146097 * k + 600"
  "146097 * k - 620 \<le> 400 * DayFromYear (1970 + k)"
proof -
  have d: "DayFromYear (1970 + k) = 365 * k + (k + 1) div 4 - (k + 69) div 100 + (k + 369) div 400"
    by (simp add: DayFromYear_def add.commute)
  have pos: "(0::int) < 4" "(0::int) < 100" "(0::int) < 400" by simp_all
  note b4 = div_bounds [OF pos(1), of "k + 1"]
    and b100 = div_bounds [OF pos(2), of "k + 69"]
    and b400 = div_bounds [OF pos(3), of "k + 369"]
  have up: "400 * (365 * k + q4 - q100 + q400) \<le> 146097 * k + 600"
    if "4 * q4 \<le> k + 1" "k + 69 < 100 * q100 + 100" "400 * q400 \<le> k + 369"
    for q4 q100 q400 :: int
    using that by (simp add: algebra_simps)
  have down: "146097 * k - 620 \<le> 400 * (365 * k + q4 - q100 + q400)"
    if "k + 1 < 4 * q4 + 4" "100 * q100 \<le> k + 69" "k + 369 < 400 * q400 + 400"
    for q4 q100 q400 :: int
    using that by (simp add: algebra_simps)
  show "400 * DayFromYear (1970 + k) \<le> 146097 * k + 600"
    unfolding d using b4(1) b100(2) b400(1) by (rule up)
  show "146097 * k - 620 \<le> 400 * DayFromYear (1970 + k)"
    unfolding d using b4(2) b100(1) b400(2) by (rule down)
qed

text \<open>The year computed is the year of ECMAScript: the day lies within it.\<close>

lemma yearFromDay_correct:
  "DayFromYear (yearFromDay d) \<le> d \<and> d < DayFromYear (yearFromDay d + 1)"
proof -
  define e where "e = (400 * d) div 146097"
  have e: "146097 * e \<le> 400 * d" "400 * d < 146097 * e + 146097"
    unfolding e_def by (rule div_bounds, simp)+
  have a: "DayFromYear (1970 + e - 1) \<le> d"
    using DayFromYear_bounds(1) [of "e - 1"] e by (simp add: algebra_simps)
  have b: "d < DayFromYear (1970 + e + 2)"
    using DayFromYear_bounds(2) [of "e + 2"] e by (simp add: algebra_simps)
  show ?thesis
    using a b unfolding yearFromDay_def Let_def e_def [symmetric]
    by (auto simp: algebra_simps)
qed

lemma MonthFromTime_range: "0 \<le> MonthFromTime t \<and> MonthFromTime t \<le> 11"
  by (simp add: MonthFromTime_def Let_def)

text \<open>Year, month and date of a time give back its day.\<close>

lemma MakeDay_fields: "MakeDay (YearFromTime t) (MonthFromTime t) (DateFromTime t) = Day t"
proof -
  have "MonthFromTime t div 12 = 0" "MonthFromTime t mod 12 = MonthFromTime t"
    using MonthFromTime_range [of t] by simp_all
  then show ?thesis
    by (simp add: MakeDay_def DateFromTime_def DayWithinYear_def InLeapYear_def)
qed

lemma startOfLocalDay_ordinary:
  assumes "\<not> (0 \<le> getFullYear z d \<and> getFullYear z d \<le> 99)"
  shows "startOfLocalDay z d = TimeClip (UTC z (localDay z d * msPerDay))"
proof -
  have "newDateYMD z (getFullYear z d) (getMonth z d) (getDate z d)
      = TimeClip (UTC z (MakeDate (MakeDay (getFullYear z d) (getMonth z d) (getDate z d)) 0))"
    using assms by (auto simp: newDateYMD_def)
  also have "MakeDay (getFullYear z d) (getMonth z d) (getDate z d) = localDay z d"
    by (simp add: getFullYear_def getMonth_def getDate_def localDay_def MakeDay_fields)
  finally show ?thesis
    by (simp add: startOfLocalDay_def MakeDate_def)
qed

lemma startOfLocalDay_day:
  assumes "localDay z a = localDay z b"
  shows "startOfLocalDay z a = startOfLocalDay z b"
proof -
  from assms have day: "Day (LocalTime z a) = Day (LocalTime z b)"
    by (simp add: localDay_def)
  then have y: "YearFromTime (LocalTime z a) = YearFromTime (LocalTime z b)"
    by (simp add: YearFromTime_def)
  with day have w: "DayWithinYear (LocalTime z a) = DayWithinYear (LocalTime z b)"
    and l: "InLeapYear (LocalTime z a) = InLeapYear (LocalTime z b)"
    by (simp_all add: DayWithinYear_def InLeapYear_def)
  then have m: "MonthFromTime (LocalTime z a) = MonthFromTime (LocalTime z b)"
    by (simp add: MonthFromTime_def)
  with w l have "DateFromTime (LocalTime z a) = DateFromTime (LocalTime z b)"
    by (simp add: DateFromTime_def)
  with y m show ?thesis
    by (simp add: startOfLocalDay_def getFullYear_def getMonth_def getDate_def)
qed

lemma midnight_order:
  assumes "steadyZone z"
  shows "UTC z (a * msPerDay) \<le> UTC z (b * msPerDay) \<longleftrightarrow> a \<le> b"
proof -
  have close: "\<bar>localOffset z (a * msPerDay) - localOffset z (b * msPerDay)\<bar> < 86400000"
    using assms by (simp add: steadyZone_def msPerDay_def)
  show ?thesis
  proof (cases "a = b")
    case True
    then show ?thesis by simp
  next
    case False
    have "a * 86400000 - p \<le> b * 86400000 - q \<longleftrightarrow> a \<le> b"
      if "\<bar>p - q\<bar> < 86400000" for p q :: int
      using that False by (cases "a < b") auto
    from this [OF close] show ?thesis
      by (simp add: UTC_def msPerDay_def)
  qed
qed

subsection \<open>isOverdue\<close>

lemma isOverdue_fst:
  "fst (isOverdue z t c) =
     (case dueDate t of None \<Rightarrow> False
      | Some due \<Rightarrow> state t \<noteq> CLOSED \<and> state t \<noteq> MERGED
          \<and> leDate (startOfLocalDay z due) (startOfLocalDay z (c 0)))"
  by (simp add: isOverdue_def newDate_def startOfLocalDay_def split: option.split)

lemma isOverdue_ordinary:
  assumes "dueDate t = Some due" and "state t = OPEN"
    and "ordinaryDate z due" and "ordinaryDate z now" and "steadyZone z" and "c 0 = now"
  shows "fst (isOverdue z t c) = (localDay z due \<le> localDay z now)"
proof -
  have "startOfLocalDay z due = Some (UTC z (localDay z due * msPerDay))"
    using assms(3) by (simp add: ordinaryDate_def startOfLocalDay_ordinary TimeClip_def)
  moreover have "startOfLocalDay z now = Some (UTC z (localDay z now * msPerDay))"
    using assms(4) by (simp add: ordinaryDate_def startOfLocalDay_ordinary TimeClip_def)
  ultimately show ?thesis
    using assms(1,2,6) midnight_order [OF assms(5)]
    by (simp add: isOverdue_fst leDate_def)
qed

subsection \<open>Concrete zones and dates\<close>

lemma fixedZone_steady: "steadyZone (fixedZone off)"
  by (simp add: steadyZone_def fixedZone_def msPerDay_def)

lemma epoch_days:
  "localDay (fixedZone 0) 0 = 0" "localDay (fixedZone 0) 86400000 = 1"
  "localDay (fixedZone 0) 172799999 = 1"
  by (simp_all add: localDay_def LocalTime_def Day_def msPerDay_def fixedZone_def)

lemma epoch_ordinary:
  "ordinaryDate (fixedZone 0) 0" "ordinaryDate (fixedZone 0) 86400000"
  "ordinaryDate (fixedZone 0) 172799999"
proof -
  have "yearFromDay 0 = 1970" "yearFromDay 1 = 1970"
    by (simp_all add: yearFromDay_def DayFromYear_def)
  then show "ordinaryDate (fixedZone 0) 0" "ordinaryDate (fixedZone 0) 86400000"
    "ordinaryDate (fixedZone 0) 172799999"
    using epoch_days
    by (simp_all add: ordinaryDate_def getFullYear_def YearFromTime_def localDay_def UTC_def
        maxTime_def msPerDay_def fixedZone_def)
qed

lemma berlin_steady: "steadyZone europeBerlin2024"
  by (simp add: steadyZone_def europeBerlin2024_def msPerDay_def)

lemma berlin_days:
  "localDay europeBerlin2024 1729981800000 = 20023"
  "localDay europeBerlin2024 1730068200000 = 20023"
  "localDay europeBerlin2024 1730070000000 = 20024"
  by (simp_all add: localDay_def LocalTime_def Day_def msPerDay_def europeBerlin2024_def)

lemma berlin_ordinary:
  "ordinaryDate europeBerlin2024 1729981800000"
  "ordinaryDate europeBerlin2024 1730068200000"
  "ordinaryDate europeBerlin2024 1730070000000"
proof -
  have "yearFromDay 20023 = 2024" "yearFromDay 20024 = 2024"
    by (simp_all add: yearFromDay_def DayFromYear_def)
  then show "ordinaryDate europeBerlin2024 1729981800000"
    "ordinaryDate europeBerlin2024 1730068200000"
    "ordinaryDate europeBerlin2024 1730070000000"
    using berlin_days
    by (simp_all add: ordinaryDate_def getFullYear_def YearFromTime_def localDay_def UTC_def
        maxTime_def msPerDay_def europeBerlin2024_def)
qed

text \<open>
  The date fields of 27 October 2024, 23:30 in Berlin, and the local midnight that
  the truncation makes of them: 26 October, 22:00 UTC.
\<close>

lemma berlin_fields:
  "getFullYear europeBerlin2024 1730068200000 = 2024
   \<and> getMonth europeBerlin2024 1730068200000 = 9
   \<and> getDate europeBerlin2024 1730068200000 = 27
   \<and> startOfLocalDay europeBerlin2024 1730068200000 = Some 1729980000000"
proof -
  have day: "Day (LocalTime europeBerlin2024 1730068200000) = 20023"
    using berlin_days(2) by (simp add: localDay_def)
  have year: "YearFromTime (LocalTime europeBerlin2024 1730068200000) = 2024"
    using day by (simp add: YearFromTime_def yearFromDay_def DayFromYear_def)
  have within: "DayWithinYear (LocalTime europeBerlin2024 1730068200000) = 300"
    using day year by (simp add: DayWithinYear_def DayFromYear_def)
  have leap: "leapDays 2024 = 1"
    by (simp add: leapDays_def DaysInYear_def)
  then have inleap: "InLeapYear (LocalTime europeBerlin2024 1730068200000) = 1"
    using year by (simp add: InLeapYear_def)
  have month: "MonthFromTime (LocalTime europeBerlin2024 1730068200000) = 9"
    using within inleap by (simp add: MonthFromTime_def)
  have date: "DateFromTime (LocalTime europeBerlin2024 1730068200000) = 27"
    using within inleap month by (simp add: DateFromTime_def monthStart_def)
  have make: "MakeDay 2024 9 27 = 20023"
    using leap by (simp add: MakeDay_def DayFromYear_def monthStart_def)
  have utc: "UTC europeBerlin2024 (20023 * msPerDay) = 1729980000000"
    by (simp add: UTC_def europeBerlin2024_def msPerDay_def)
  have "newDateYMD europeBerlin2024 2024 9 27 = Some 1729980000000"
    using make utc by (simp add: newDateYMD_def MakeDate_def TimeClip_def maxTime_def)
  with year month date show ?thesis
    by (simp add: startOfLocalDay_def getFullYear_def getMonth_def getDate_def)
qed





subsection \<open>calculateStats: counts, lists and priority buckets\<close>

lemma upperChar_eq_iff:
  "upperChar ch = d \<longleftrightarrow>
     (if 97 \<le> (of_char ch :: nat) \<and> (of_char ch :: nat) \<le> 122
      then (of_char d :: nat) = of_char ch - 32 else d = ch)"
proof (cases "97 \<le> (of_char ch :: nat) \<and> (of_char ch :: nat) \<le> 122")
  case True
  then have "(of_char ch - 32 :: nat) < 256" by arith
  then have "take_bit 8 (of_char ch - 32 :: nat) = of_char ch - 32"
    by (simp add: take_bit_eq_mod)
  with True show ?thesis
    by (auto simp: upperChar_def Let_def char_of_eq_iff)
next
  case False
  then show ?thesis by (auto simp: upperChar_def Let_def)
qed

lemma upperChar_P: "upperChar ch = CHR ''P'' \<longleftrightarrow> ch = CHR ''P'' \<or> ch = CHR ''p''"
proof -
  have "ch = CHR ''p'' \<longleftrightarrow> (of_char ch :: nat) = of_char CHR ''p''"
    by (simp only: of_char_eq_iff)
  then show ?thesis
    by (auto simp: upperChar_eq_iff)
qed

lemma upperChar_0: "upperChar ch = CHR ''0'' \<longleftrightarrow> ch = CHR ''0''"
  by (auto simp: upperChar_eq_iff)

lemma upperChar_1: "upperChar ch = CHR ''1'' \<longleftrightarrow> ch = CHR ''1''"
  by (auto simp: upperChar_eq_iff)

lemma toUpperCase_P0: "toUpperCase s = ''P0'' \<longleftrightarrow> s = ''P0'' \<or> s = ''p0''"
  by (auto simp: toUpperCase_def map_eq_Cons_conv upperChar_P upperChar_0)

lemma toUpperCase_P1: "toUpperCase s = ''P1'' \<longleftrightarrow> s = ''P1'' \<or> s = ''p1''"
  by (auto simp: toUpperCase_def map_eq_Cons_conv upperChar_P upperChar_1)

text \<open>The three tests of the source on a priority, against the specification's bucket.\<close>

lemma isP0_bucket:
  "(case pr of None \<Rightarrow> False | Some p \<Rightarrow> toUpperCase p = ''P0'') \<longleftrightarrow> priorityBucket_spec pr = P0"
  by (auto simp: priorityBucket_spec_def toUpperCase_P0 split: option.split)

lemma isP1_bucket:
  "(case pr of None \<Rightarrow> False | Some p \<Rightarrow> toUpperCase p = ''P1'') \<longleftrightarrow> priorityBucket_spec pr = P1"
  by (auto simp: priorityBucket_spec_def toUpperCase_P1 split: option.split)

lemma isNoPriority_bucket:
  "(case pr of None \<Rightarrow> True
    | Some p \<Rightarrow> p = [] \<or> (toUpperCase p \<noteq> ''P0'' \<and> toUpperCase p \<noteq> ''P1''))
   \<longleftrightarrow> priorityBucket_spec pr = NO_PRIORITY"
  by (auto simp: priorityBucket_spec_def toUpperCase_P0 toUpperCase_P1 split: option.split)

lemma calculateStats_fst:
  "fst (calculateStats z tasks c) =
     \<lparr> total_count = length tasks,
       open_count = length (filter (\<lambda>t. state t = OPEN) tasks),
       closed = length (filter (\<lambda>t. state t = CLOSED \<or> state t = MERGED) tasks),
       overdue = length (fst (filterOverdue z tasks c)),
       overdueList = fst (filterOverdue z tasks c),
       noTechHandoffETA = length (filter (\<lambda>t. state t = OPEN \<and> dueDate t = None) tasks),
       noTechHandoffETAList = filter (\<lambda>t. state t = OPEN \<and> dueDate t = None) tasks,
       noTechHandoffETAByPriority =
         \<lparr> p0 = length (filter (\<lambda>t. priorityBucket_spec (priority t) = P0)
                  (filter (\<lambda>t. state t = OPEN \<and> dueDate t = None) tasks)),
           p1 = length (filter (\<lambda>t. priorityBucket_spec (priority t) = P1)
                  (filter (\<lambda>t. state t = OPEN \<and> dueDate t = None) tasks)),
           noPriority = length (filter (\<lambda>t. priorityBucket_spec (priority t) = NO_PRIORITY)
                  (filter (\<lambda>t. state t = OPEN \<and> dueDate t = None) tasks)),
           p0List = filter (\<lambda>t. priorityBucket_spec (priority t) = P0)
                  (filter (\<lambda>t. state t = OPEN \<and> dueDate t = None) tasks),
           p1List = filter (\<lambda>t. priorityBucket_spec (priority t) = P1)
                  (filter (\<lambda>t. state t = OPEN \<and> dueDate t = None) tasks),
           noPriorityList = filter (\<lambda>t. priorityBucket_spec (priority t) = NO_PRIORITY)
                  (filter (\<lambda>t. state t = OPEN \<and> dueDate t = None) tasks) \<rparr>,
       unassignedByPriority =
         \<lparr> p0 = length (filter (\<lambda>t. priorityBucket_spec (priority t) = P0)
                  (filter (\<lambda>t. state t = OPEN \<and> assignees t = []) tasks)),
           p1 = length (filter (\<lambda>t. priorityBucket_spec (priority t) = P1)
                  (filter (\<lambda>t. state t = OPEN \<and> assignees t = []) tasks)),
           noPriority = length (filter (\<lambda>t. priorityBucket_spec (priority t) = NO_PRIORITY)
                  (filter (\<lambda>t. state t = OPEN \<and> assignees t = []) tasks)),
           p0List = filter (\<lambda>t. priorityBucket_spec (priority t) = P0)
                  (filter (\<lambda>t. state t = OPEN \<and> assignees t = []) tasks),
           p1List = filter (\<lambda>t. priorityBucket_spec (priority t) = P1)
                  (filter (\<lambda>t. state t = OPEN \<and> assignees t = []) tasks),
           noPriorityList = filter (\<lambda>t. priorityBucket_spec (priority t) = NO_PRIORITY)
                  (filter (\<lambda>t. state t = OPEN \<and> assignees t = []) tasks) \<rparr> \<rparr>"
  by (simp add: calculateStats_def Let_def isP0_bucket isP1_bucket isNoPriority_bucket
      split: prod.split)

lemma open_closed_total:
  "length (filter (\<lambda>t. state t = OPEN) tasks)
     + length (filter (\<lambda>t. state t = CLOSED \<or> state t = MERGED) tasks) = length tasks"
proof (induction tasks)
  case Nil
  show ?case by simp
next
  case (Cons t ts)
  then show ?case by (cases "state t") simp_all
qed

lemma bucket_partition:
  "mset (filter (\<lambda>t. priorityBucket_spec (priority t) = P0) xs)
     + mset (filter (\<lambda>t. priorityBucket_spec (priority t) = P1) xs)
     + mset (filter (\<lambda>t. priorityBucket_spec (priority t) = NO_PRIORITY) xs) = mset xs"
proof (induction xs)
  case Nil
  show ?case by simp
next
  case (Cons t ts)
  then show ?case by (cases "priorityBucket_spec (priority t)") simp_all
qed

lemma bucket_partition_length:
  "length (filter (\<lambda>t. priorityBucket_spec (priority t) = P0) xs)
     + length (filter (\<lambda>t. priorityBucket_spec (priority t) = P1) xs)
     + length (filter (\<lambda>t. priorityBucket_spec (priority t) = NO_PRIORITY) xs) = length xs"
proof (induction xs)
  case Nil
  show ?case by simp
next
  case (Cons t ts)
  then show ?case by (cases "priorityBucket_spec (priority t)") simp_all
qed

lemma bucket_disjoint:
  "b \<noteq> b' \<Longrightarrow>
   set (filter (\<lambda>t. priorityBucket_spec (priority t) = b) xs)
     \<inter> set (filter (\<lambda>t. priorityBucket_spec (priority t) = b') xs) = {}"
  by auto

text \<open>
  C4. \<open>total\<close> is the size of the collection, \<open>open\<close> the number of OPEN tasks and
  \<open>closed\<close> the number of CLOSED or MERGED tasks; a state being one of the three,
  \<open>open + closed = total\<close>.
\<close>

theorem calculateStats_total_open_closed:
  "total_count (fst (calculateStats z tasks c)) = length tasks
   \<and> open_count (fst (calculateStats z tasks c)) = length (filter (\<lambda>t. state t = OPEN) tasks)
   \<and> closed (fst (calculateStats z tasks c))
       = length (filter (\<lambda>t. state t = CLOSED \<or> state t = MERGED) tasks)
   \<and> open_count (fst (calculateStats z tasks c)) + closed (fst (calculateStats z tasks c))
       = total_count (fst (calculateStats z tasks c))"
  by (simp add: calculateStats_fst open_closed_total)

text \<open>
  C9. In the statistics that \<open>calculateStats\<close> returns, every count is the length of
  its list: \<open>overdue\<close>, \<open>noTechHandoffETA\<close>, and \<open>p0\<close>, \<open>p1\<close>, \<open>noPriority\<close> in both
  priority breakdowns.
\<close>

theorem calculateStats_counts_are_lengths:
  "overdue (fst (calculateStats z tasks c))
     = length (overdueList (fst (calculateStats z tasks c)))
   \<and> noTechHandoffETA (fst (calculateStats z tasks c))
     = length (noTechHandoffETAList (fst (calculateStats z tasks c)))
   \<and> p0 (noTechHandoffETAByPriority (fst (calculateStats z tasks c)))
     = length (p0List (noTechHandoffETAByPriority (fst (calculateStats z tasks c))))
   \<and> p1 (noTechHandoffETAByPriority (fst (calculateStats z tasks c)))
     = length (p1List (noTechHandoffETAByPriority (fst (calculateStats z tasks c))))
   \<and> noPriority (noTechHandoffETAByPriority (fst (calculateStats z tasks c)))
     = length (noPriorityList (noTechHandoffETAByPriority (fst (calculateStats z tasks c))))
   \<and> p0 (unassignedByPriority (fst (calculateStats z tasks c)))
     = length (p0List (unassignedByPriority (fst (calculateStats z tasks c))))
   \<and> p1 (unassignedByPriority (fst (calculateStats z tasks c)))
     = length (p1List (unassignedByPriority (fst (calculateStats z tasks c))))
   \<and> noPriority (unassignedByPriority (fst (calculateStats z tasks c)))
     = length (noPriorityList (unassignedByPriority (fst (calculateStats z tasks c))))"
  by (simp add: calculateStats_fst)

text \<open>
  C2. \<open>noTechHandoffETAList\<close> is the OPEN tasks with no due date, in the order of the
  collection. Its three priority sublists partition it: together they hold every task
  of the list as often as the list does, no task is in two of them, and their sizes
  add up to \<open>noTechHandoffETA\<close>. The same holds of \<open>unassignedByPriority\<close> and the OPEN
  tasks with no assignee.
\<close>

theorem calculateStats_priority_partition:
  "noTechHandoffETAList (fst (calculateStats z tasks c))
     = filter (\<lambda>t. state t = OPEN \<and> dueDate t = None) tasks
   \<and> mset (p0List (noTechHandoffETAByPriority (fst (calculateStats z tasks c))))
       + mset (p1List (noTechHandoffETAByPriority (fst (calculateStats z tasks c))))
       + mset (noPriorityList (noTechHandoffETAByPriority (fst (calculateStats z tasks c))))
     = mset (noTechHandoffETAList (fst (calculateStats z tasks c)))
   \<and> set (p0List (noTechHandoffETAByPriority (fst (calculateStats z tasks c))))
       \<inter> set (p1List (noTechHandoffETAByPriority (fst (calculateStats z tasks c)))) = {}
   \<and> set (p0List (noTechHandoffETAByPriority (fst (calculateStats z tasks c))))
       \<inter> set (noPriorityList (noTechHandoffETAByPriority (fst (calculateStats z tasks c)))) = {}
   \<and> set (p1List (noTechHandoffETAByPriority (fst (calculateStats z tasks c))))
       \<inter> set (noPriorityList (noTechHandoffETAByPriority (fst (calculateStats z tasks c)))) = {}
   \<and> length (p0List (noTechHandoffETAByPriority (fst (calculateStats z tasks c))))
       + length (p1List (noTechHandoffETAByPriority (fst (calculateStats z tasks c))))
       + length (noPriorityList (noTechHandoffETAByPriority (fst (calculateStats z tasks c))))
     = noTechHandoffETA (fst (calculateStats z tasks c))
   \<and> mset (p0List (unassignedByPriority (fst (calculateStats z tasks c))))
       + mset (p1List (unassignedByPriority (fst (calculateStats z tasks c))))
       + mset (noPriorityList (unassignedByPriority (fst (calculateStats z tasks c))))
     = mset (filter (\<lambda>t. state t = OPEN \<and> assignees t = []) tasks)
   \<and> set (p0List (unassignedByPriority (fst (calculateStats z tasks c))))
       \<inter> set (p1List (unassignedByPriority (fst (calculateStats z tasks c)))) = {}
   \<and> set (p0List (unassignedByPriority (fst (calculateStats z tasks c))))
       \<inter> set (noPriorityList (unassignedByPriority (fst (calculateStats z tasks c)))) = {}
   \<and> set (p1List (unassignedByPriority (fst (calculateStats z tasks c))))
       \<inter> set (noPriorityList (unassignedByPriority (fst (calculateStats z tasks c)))) = {}
   \<and> length (p0List (unassignedByPriority (fst (calculateStats z tasks c))))
       + length (p1List (unassignedByPriority (fst (calculateStats z tasks c))))
       + length (noPriorityList (unassignedByPriority (fst (calculateStats z tasks c))))
     = length (filter (\<lambda>t. state t = OPEN \<and> assignees t = []) tasks)"
  unfolding calculateStats_fst
  by (simp only: task_stats.simps priority_breakdown.simps bucket_partition
      bucket_partition_length bucket_disjoint priority_bucket.distinct simp_thms)

text \<open>
  Three OPEN tasks with no due date and priorities "p0", "P1" and none: the no-ETA
  total is 3, and so is the sum of the sizes of the three sublists.
\<close>

theorem calculateStats_priority_partition_witness:
  "noTechHandoffETA (fst (calculateStats (fixedZone 0)
       [exampleTask ''a'' OPEN [] (Some ''p0'') 0 None,
        exampleTask ''b'' OPEN [] (Some ''P1'') 0 None,
        exampleTask ''c'' OPEN [] None 0 None] (frozenClock 0))) = 3
   \<and> length (p0List (noTechHandoffETAByPriority (fst (calculateStats (fixedZone 0)
       [exampleTask ''a'' OPEN [] (Some ''p0'') 0 None,
        exampleTask ''b'' OPEN [] (Some ''P1'') 0 None,
        exampleTask ''c'' OPEN [] None 0 None] (frozenClock 0)))))
     + length (p1List (noTechHandoffETAByPriority (fst (calculateStats (fixedZone 0)
       [exampleTask ''a'' OPEN [] (Some ''p0'') 0 None,
        exampleTask ''b'' OPEN [] (Some ''P1'') 0 None,
        exampleTask ''c'' OPEN [] None 0 None] (frozenClock 0)))))
     + length (noPriorityList (noTechHandoffETAByPriority (fst (calculateStats (fixedZone 0)
       [exampleTask ''a'' OPEN [] (Some ''p0'') 0 None,
        exampleTask ''b'' OPEN [] (Some ''P1'') 0 None,
        exampleTask ''c'' OPEN [] None 0 None] (frozenClock 0))))) = 3"
  using calculateStats_priority_partition [of "fixedZone 0"
       "[exampleTask ''a'' OPEN [] (Some ''p0'') 0 None,
        exampleTask ''b'' OPEN [] (Some ''P1'') 0 None,
        exampleTask ''c'' OPEN [] None 0 None]" "frozenClock 0"]
  by (simp add: exampleTask_def calculateStats_fst)

text \<open>
  C3. Both priority breakdowns split their tasks by the one classification of the
  specification: each sublist is the tasks of its population whose priority is in
  its bucket, so a task counted in both populations is in the same sublist of both.
  "P0" and "p0" are in bucket P0, "P1" and "p1" in P1; an absent priority, the
  empty string and "P2" are in NO_PRIORITY.
\<close>

theorem priority_bucketing_shared:
  "p0List (noTechHandoffETAByPriority (fst (calculateStats z tasks c)))
     = filter (\<lambda>t. priorityBucket_spec (priority t) = P0)
         (noTechHandoffETAList (fst (calculateStats z tasks c)))
   \<and> p1List (noTechHandoffETAByPriority (fst (calculateStats z tasks c)))
     = filter (\<lambda>t. priorityBucket_spec (priority t) = P1)
         (noTechHandoffETAList (fst (calculateStats z tasks c)))
   \<and> noPriorityList (noTechHandoffETAByPriority (fst (calculateStats z tasks c)))
     = filter (\<lambda>t. priorityBucket_spec (priority t) = NO_PRIORITY)
         (noTechHandoffETAList (fst (calculateStats z tasks c)))
   \<and> p0List (unassignedByPriority (fst (calculateStats z tasks c)))
     = filter (\<lambda>t. priorityBucket_spec (priority t) = P0)
         (filter (\<lambda>t. state t = OPEN \<and> assignees t = []) tasks)
   \<and> p1List (unassignedByPriority (fst (calculateStats z tasks c)))
     = filter (\<lambda>t. priorityBucket_spec (priority t) = P1)
         (filter (\<lambda>t. state t = OPEN \<and> assignees t = []) tasks)
   \<and> noPriorityList (unassignedByPriority (fst (calculateStats z tasks c)))
     = filter (\<lambda>t. priorityBucket_spec (priority t) = NO_PRIORITY)
         (filter (\<lambda>t. state t = OPEN \<and> assignees t = []) tasks)
   \<and> (t \<in> set tasks \<and> state t = OPEN \<and> dueDate t = None \<and> assignees t = [] \<longrightarrow>
        (t \<in> set (p0List (noTechHandoffETAByPriority (fst (calculateStats z tasks c))))
           \<longleftrightarrow> t \<in> set (p0List (unassignedByPriority (fst (calculateStats z tasks c)))))
        \<and> (t \<in> set (p1List (noTechHandoffETAByPriority (fst (calculateStats z tasks c))))
           \<longleftrightarrow> t \<in> set (p1List (unassignedByPriority (fst (calculateStats z tasks c)))))
        \<and> (t \<in> set (noPriorityList (noTechHandoffETAByPriority (fst (calculateStats z tasks c))))
           \<longleftrightarrow> t \<in> set (noPriorityList (unassignedByPriority (fst (calculateStats z tasks c))))))
   \<and> priorityBucket_spec (Some ''P0'') = P0 \<and> priorityBucket_spec (Some ''p0'') = P0
   \<and> priorityBucket_spec (Some ''P1'') = P1 \<and> priorityBucket_spec (Some ''p1'') = P1
   \<and> priorityBucket_spec None = NO_PRIORITY \<and> priorityBucket_spec (Some []) = NO_PRIORITY
   \<and> priorityBucket_spec (Some ''P2'') = NO_PRIORITY"
  by (simp add: calculateStats_fst priorityBucket_spec_def)

text \<open>
  Two OPEN tasks with neither due date nor assignee: the one with priority "p0" is
  the P0 sublist of both breakdowns, the one with "P2" the no-priority sublist of both.
\<close>

theorem priority_bucketing_shared_witness:
  "p0List (noTechHandoffETAByPriority (fst (calculateStats (fixedZone 0)
       [exampleTask ''a'' OPEN [] (Some ''p0'') 0 None,
        exampleTask ''b'' OPEN [] (Some ''P2'') 0 None] (frozenClock 0))))
     = [exampleTask ''a'' OPEN [] (Some ''p0'') 0 None]
   \<and> p0List (unassignedByPriority (fst (calculateStats (fixedZone 0)
       [exampleTask ''a'' OPEN [] (Some ''p0'') 0 None,
        exampleTask ''b'' OPEN [] (Some ''P2'') 0 None] (frozenClock 0))))
     = [exampleTask ''a'' OPEN [] (Some ''p0'') 0 None]
   \<and> noPriorityList (noTechHandoffETAByPriority (fst (calculateStats (fixedZone 0)
       [exampleTask ''a'' OPEN [] (Some ''p0'') 0 None,
        exampleTask ''b'' OPEN [] (Some ''P2'') 0 None] (frozenClock 0))))
     = [exampleTask ''b'' OPEN [] (Some ''P2'') 0 None]
   \<and> noPriorityList (unassignedByPriority (fst (calculateStats (fixedZone 0)
       [exampleTask ''a'' OPEN [] (Some ''p0'') 0 None,
        exampleTask ''b'' OPEN [] (Some ''P2'') 0 None] (frozenClock 0))))
     = [exampleTask ''b'' OPEN [] (Some ''P2'') 0 None]"
  using priority_bucketing_shared [of "fixedZone 0"
       "[exampleTask ''a'' OPEN [] (Some ''p0'') 0 None,
        exampleTask ''b'' OPEN [] (Some ''P2'') 0 None]" "frozenClock 0"
       "exampleTask ''a'' OPEN [] (Some ''p0'') 0 None"]
  by (simp add: exampleTask_def priorityBucket_spec_def calculateStats_fst)

subsection \<open>calculateStats and the system clock\<close>

lemma isOverdue_snd:
  "snd (isOverdue z t c) =
     (if dueDate t \<noteq> None \<and> state t = OPEN then (\<lambda>n. c (Suc n)) else c)"
  by (cases "state t") (simp_all add: isOverdue_def newDate_def split: option.split)

lemma isOverdue_same_day:
  assumes "localDay z (c1 0) = localDay z (c2 0)"
  shows "fst (isOverdue z t c1) = fst (isOverdue z t c2)"
  using startOfLocalDay_day [OF assms] by (simp add: isOverdue_fst split: option.split)

lemma filterOverdue_Cons_fst:
  "fst (filterOverdue z (t # ts) c) =
     (if fst (isOverdue z t c) then [t] else [])
       @ fst (filterOverdue z ts (snd (isOverdue z t c)))"
  by (simp split: prod.split)

lemma filterOverdue_Cons_snd:
  "snd (filterOverdue z (t # ts) c) = snd (filterOverdue z ts (snd (isOverdue z t c)))"
  by (simp split: prod.split)

lemma filterOverdue_same_days:
  "(\<And>n. localDay z (c1 n) = localDay z (c2 n)) \<Longrightarrow>
   fst (filterOverdue z ts c1) = fst (filterOverdue z ts c2)"
proof (induction ts arbitrary: c1 c2)
  case Nil
  show ?case by simp
next
  case (Cons t ts)
  have here: "fst (isOverdue z t c1) = fst (isOverdue z t c2)"
    using Cons.prems [of 0] by (rule isOverdue_same_day)
  have "\<And>n. localDay z (snd (isOverdue z t c1) n) = localDay z (snd (isOverdue z t c2) n)"
    using Cons.prems by (simp add: isOverdue_snd)
  then have "fst (filterOverdue z ts (snd (isOverdue z t c1)))
      = fst (filterOverdue z ts (snd (isOverdue z t c2)))"
    by (rule Cons.IH)
  with here show ?case
    by (simp only: filterOverdue_Cons_fst)
qed

text \<open>The clock is read once for every OPEN task with a due date, and not otherwise.\<close>

lemma filterOverdue_snd:
  "snd (filterOverdue z ts c) =
     (\<lambda>n. c (n + length (filter (\<lambda>t. dueDate t \<noteq> None \<and> state t = OPEN) ts)))"
proof (induction ts arbitrary: c)
  case Nil
  show ?case by simp
next
  case (Cons t ts)
  show ?case
    unfolding filterOverdue_Cons_snd Cons.IH by (simp add: isOverdue_snd)
qed

lemma calculateStats_snd: "snd (calculateStats z tasks c) = snd (filterOverdue z tasks c)"
  by (simp add: calculateStats_def Let_def split: prod.split)

text \<open>
  C5. \<open>isOverdue\<close> takes "now" from the system clock, by \<open>new Date()\<close> in its body; no
  caller can supply it. So two evaluations of \<open>calculateStats\<close> on the same collection
  can differ: of one OPEN task due on the second day of the epoch, none is overdue
  when the clock reads the first day, and one is when it reads the second.
\<close>

theorem calculateStats_clock_counterexample:
  "overdue (fst (calculateStats (fixedZone 0) [exampleTask ''a'' OPEN [] None 0 (Some 86400000)]
       (frozenClock 0))) = 0
   \<and> overdue (fst (calculateStats (fixedZone 0) [exampleTask ''a'' OPEN [] None 0 (Some 86400000)]
       (frozenClock 86400000))) = 1
   \<and> fst (calculateStats (fixedZone 0) [exampleTask ''a'' OPEN [] None 0 (Some 86400000)]
         (frozenClock 0))
     \<noteq> fst (calculateStats (fixedZone 0) [exampleTask ''a'' OPEN [] None 0 (Some 86400000)]
         (frozenClock 86400000))"
proof -
  have "\<not> fst (isOverdue (fixedZone 0) (exampleTask ''a'' OPEN [] None 0 (Some 86400000))
          (frozenClock 0))"
    using isOverdue_ordinary
      [of "exampleTask ''a'' OPEN [] None 0 (Some 86400000)" 86400000 "fixedZone 0" 0
        "frozenClock 0"]
      epoch_days epoch_ordinary fixedZone_steady
    by (simp add: exampleTask_def frozenClock_def)
  then have "overdue (fst (calculateStats (fixedZone 0)
      [exampleTask ''a'' OPEN [] None 0 (Some 86400000)] (frozenClock 0))) = 0"
    by (simp add: calculateStats_fst filterOverdue_Cons_fst del: filterOverdue.simps(2))
  moreover
  have "fst (isOverdue (fixedZone 0) (exampleTask ''a'' OPEN [] None 0 (Some 86400000))
          (frozenClock 86400000))"
    using isOverdue_ordinary
      [of "exampleTask ''a'' OPEN [] None 0 (Some 86400000)" 86400000 "fixedZone 0" 86400000
        "frozenClock 86400000"]
      epoch_days epoch_ordinary fixedZone_steady
    by (simp add: exampleTask_def frozenClock_def)
  then have "overdue (fst (calculateStats (fixedZone 0)
      [exampleTask ''a'' OPEN [] None 0 (Some 86400000)] (frozenClock 86400000))) = 1"
    by (simp add: calculateStats_fst filterOverdue_Cons_fst del: filterOverdue.simps(2))
  ultimately show ?thesis by auto
qed

text \<open>
  C5, amended. \<open>isOverdue\<close> reads the clock once when the task is OPEN and has a due
  date, and not otherwise; \<open>calculateStats\<close> reads it once for every such task of the
  collection. The results are determined by the task collection and the local
  calendar days of the readings: two evaluations whose corresponding readings fall on
  the same local day return equal results, for \<open>isOverdue\<close> and for \<open>calculateStats\<close>.
  Apart from \<open>overdue\<close> and \<open>overdueList\<close>, the statistics do not depend on the clock
  at all.
\<close>

theorem calculateStats_determined_by_clock_days:
  "snd (isOverdue z t c1) =
     (if dueDate t \<noteq> None \<and> state t = OPEN then (\<lambda>n. c1 (Suc n)) else c1)
   \<and> snd (calculateStats z tasks c1) =
       (\<lambda>n. c1 (n + length (filter (\<lambda>t. dueDate t \<noteq> None \<and> state t = OPEN) tasks)))
   \<and> ((\<forall>n. localDay z (c1 n) = localDay z (c2 n)) \<longrightarrow>
      fst (isOverdue z t c1) = fst (isOverdue z t c2)
      \<and> fst (calculateStats z tasks c1) = fst (calculateStats z tasks c2))
   \<and> (fst (calculateStats z tasks c1))\<lparr> overdue := 0, overdueList := [] \<rparr>
     = (fst (calculateStats z tasks c2))\<lparr> overdue := 0, overdueList := [] \<rparr>"
proof -
  have "fst (isOverdue z t c1) = fst (isOverdue z t c2)
      \<and> fst (calculateStats z tasks c1) = fst (calculateStats z tasks c2)"
    if days: "\<forall>n. localDay z (c1 n) = localDay z (c2 n)"
  proof -
    from days have "fst (filterOverdue z tasks c1) = fst (filterOverdue z tasks c2)"
      by (intro filterOverdue_same_days) simp
    moreover from days have "fst (isOverdue z t c1) = fst (isOverdue z t c2)"
      by (intro isOverdue_same_day) simp
    ultimately show ?thesis by (simp add: calculateStats_fst)
  qed
  moreover have "(fst (calculateStats z tasks c1))\<lparr> overdue := 0, overdueList := [] \<rparr>
     = (fst (calculateStats z tasks c2))\<lparr> overdue := 0, overdueList := [] \<rparr>"
    by (simp add: calculateStats_fst)
  moreover have "snd (calculateStats z tasks c1) =
       (\<lambda>n. c1 (n + length (filter (\<lambda>t. dueDate t \<noteq> None \<and> state t = OPEN) tasks)))"
    by (simp only: calculateStats_snd filterOverdue_snd)
  ultimately show ?thesis
    using isOverdue_snd [of z t c1] by blast
qed

text \<open>
  Berlin, 27 October 2024, at 00:30 and at 23:30 local time, 24 hours apart on the
  same local day: the statistics of a task due that day are equal, with one task
  overdue, and the one reading of the clock is used up.
\<close>

theorem calculateStats_determined_by_clock_days_witness:
  "fst (calculateStats europeBerlin2024 [exampleTask ''a'' OPEN [] None 0 (Some 1730068200000)]
         (frozenClock 1729981800000))
   = fst (calculateStats europeBerlin2024 [exampleTask ''a'' OPEN [] None 0 (Some 1730068200000)]
         (frozenClock 1730068200000))
   \<and> overdue (fst (calculateStats europeBerlin2024
         [exampleTask ''a'' OPEN [] None 0 (Some 1730068200000)]
         (frozenClock 1730068200000))) = 1
   \<and> snd (calculateStats europeBerlin2024 [exampleTask ''a'' OPEN [] None 0 (Some 1730068200000)]
         (frozenClock 1729981800000)) 0 = 1729981800000"
proof -
  have "\<forall>n. localDay europeBerlin2024 (frozenClock 1729981800000 n)
      = localDay europeBerlin2024 (frozenClock 1730068200000 n)"
    using berlin_days by (simp add: frozenClock_def)
  with calculateStats_determined_by_clock_days
    [of europeBerlin2024 "exampleTask ''a'' OPEN [] None 0 (Some 1730068200000)"
      "frozenClock 1729981800000"
      "[exampleTask ''a'' OPEN [] None 0 (Some 1730068200000)]"
      "frozenClock 1730068200000"]
  have same: "fst (calculateStats europeBerlin2024
          [exampleTask ''a'' OPEN [] None 0 (Some 1730068200000)] (frozenClock 1729981800000))
      = fst (calculateStats europeBerlin2024
          [exampleTask ''a'' OPEN [] None 0 (Some 1730068200000)] (frozenClock 1730068200000))"
    and used: "snd (calculateStats europeBerlin2024
          [exampleTask ''a'' OPEN [] None 0 (Some 1730068200000)] (frozenClock 1729981800000))
      = (\<lambda>n. frozenClock 1729981800000 (n + length (filter
            (\<lambda>t. dueDate t \<noteq> None \<and> state t = OPEN)
            [exampleTask ''a'' OPEN [] None 0 (Some 1730068200000)])))"
    by blast+
  have "fst (isOverdue europeBerlin2024 (exampleTask ''a'' OPEN [] None 0 (Some 1730068200000))
          (frozenClock 1730068200000))"
    using isOverdue_ordinary
      [of "exampleTask ''a'' OPEN [] None 0 (Some 1730068200000)" 1730068200000
        europeBerlin2024 1730068200000 "frozenClock 1730068200000"]
      berlin_ordinary berlin_steady
    by (simp add: exampleTask_def frozenClock_def)
  then have "overdue (fst (calculateStats europeBerlin2024
      [exampleTask ''a'' OPEN [] None 0 (Some 1730068200000)] (frozenClock 1730068200000))) = 1"
    by (simp add: calculateStats_fst filterOverdue_Cons_fst del: filterOverdue.simps(2))
  with same used show ?thesis
    by (simp add: frozenClock_def)
qed


subsection \<open>groupByAssignee\<close>

lemma map_of_mapSet: "map_of (mapSet g k v) k' = (if k' = k then Some v else map_of g k')"
  by (induction g k v rule: mapSet.induct) auto

lemma keys_mapSet:
  "map fst (mapSet g k v) = (if k \<in> set (map fst g) then map fst g else map fst g @ [k])"
  by (induction g k v rule: mapSet.induct) auto

lemma groupSizes_mapSet:
  "groupSizes (mapSet g k v) + length (bucketOf g k) = groupSizes g + length v"
  by (induction g k v rule: mapSet.induct) (auto simp: groupSizes_def bucketOf_def)

lemma map_of_None_keys: "map_of g k = None \<longleftrightarrow> k \<notin> set (map fst g)"
  by (simp add: map_of_eq_None_iff)

lemma addToGroup_extends: "\<exists>g'. addToGroup g k t = Inr g' \<and> extends g [(k, t)] g'"
proof (cases "map_of g k")
  case None
  let ?g1 = "mapSet g k []"
  let ?g2 = "mapSet ?g1 k [t]"
  have run: "addToGroup g k t = Inr ?g2"
    using None by (simp add: addToGroup_def pushTask_def mapHas_def map_of_mapSet)
  have absent: "k \<notin> set (map fst g)"
    using None by (simp add: map_of_eq_None_iff)
  have "groupSizes ?g1 + length (bucketOf g k) = groupSizes g"
    using groupSizes_mapSet [of g k "[]"] by simp
  moreover have "bucketOf g k = []" "bucketOf ?g1 k = []"
    using None by (simp_all add: bucketOf_def map_of_mapSet)
  moreover have "groupSizes ?g2 + length (bucketOf ?g1 k) = groupSizes ?g1 + length [t]"
    by (rule groupSizes_mapSet)
  ultimately have sizes: "groupSizes ?g2 = groupSizes g + 1" by simp
  have keys: "map fst ?g2 = map fst g @ [k]"
    using absent by (simp add: keys_mapSet)
  have "extends g [(k, t)] ?g2"
    unfolding extends_def
    using sizes keys absent \<open>bucketOf g k = []\<close> by (auto simp: map_of_mapSet)
  with run show ?thesis by blast
next
  case (Some arr)
  let ?g2 = "mapSet g k (arr @ [t])"
  have run: "addToGroup g k t = Inr ?g2"
    using Some by (simp add: addToGroup_def pushTask_def mapHas_def)
  have present: "k \<in> set (map fst g)"
    using Some map_of_None_keys [of g k] by auto
  have bucket: "bucketOf g k = arr"
    using Some by (simp add: bucketOf_def)
  have "groupSizes ?g2 + length (bucketOf g k) = groupSizes g + length (arr @ [t])"
    by (rule groupSizes_mapSet)
  with bucket have sizes: "groupSizes ?g2 = groupSizes g + 1" by simp
  have keys: "map fst ?g2 = map fst g"
    using present by (simp add: keys_mapSet)
  have "extends g [(k, t)] ?g2"
    unfolding extends_def
    using sizes keys present bucket by (auto simp: map_of_mapSet)
  with run show ?thesis by blast
qed

lemma extends_keys:
  "extends g kts g' \<Longrightarrow> set (map fst g') = set (map fst g) \<union> fst ` set kts"
  by (simp add: extends_def)

lemma extends_lookup:
  "extends g kts g' \<Longrightarrow>
   map_of g' k =
     (if k \<in> fst ` set kts
      then Some (bucketOf g k @ map snd (filter (\<lambda>kt. fst kt = k) kts))
      else map_of g k)"
  by (simp add: extends_def)

lemma extends_Nil: "extends g [] g"
  by (simp add: extends_def)

lemma extends_trans:
  assumes "extends g a g'" and "extends g' b g''"
  shows "extends g (a @ b) g''"
proof -
  have bucket: "bucketOf g' k =
      (if k \<in> fst ` set a then bucketOf g k @ map snd (filter (\<lambda>kt. fst kt = k) a)
       else bucketOf g k)" for k
    using assms(1) by (simp add: extends_def bucketOf_def)
  have none: "filter (\<lambda>kt. fst kt = k) xs = []" if "k \<notin> fst ` set xs" for k and xs :: "(string \<times> task) list"
    using that by (induction xs) auto
  have "map_of g'' k =
        (if k \<in> fst ` set (a @ b)
         then Some (bucketOf g k @ map snd (filter (\<lambda>kt. fst kt = k) (a @ b)))
         else map_of g k)" for k
  proof (cases "k \<in> fst ` set b")
    case True
    then have "map_of g'' k = Some (bucketOf g' k @ map snd (filter (\<lambda>kt. fst kt = k) b))"
      using assms(2) by (simp add: extends_def)
    then show ?thesis
      using True bucket [of k] none [of k a] by auto
  next
    case False
    then have "map_of g'' k = map_of g' k"
      using assms(2) by (simp add: extends_def)
    then show ?thesis
      using False assms(1) none [of k b] by (auto simp: extends_def)
  qed
  moreover have "groupSizes g'' = groupSizes g + length (a @ b)"
    using assms by (simp add: extends_def)
  moreover have "set (map fst g'') = set (map fst g) \<union> fst ` set (a @ b)"
    using assms by (auto simp: extends_def)
  moreover have "distinct (map fst g) \<longrightarrow> distinct (map fst g'')"
    using assms by (simp add: extends_def)
  ultimately show ?thesis
    unfolding extends_def by blast
qed

lemma forAssignees_extends:
  "\<exists>g'. forAssignees as t g = Inr g' \<and> extends g (map (\<lambda>k. (k, t)) as) g'"
proof (induction as arbitrary: g)
  case Nil
  show ?case by (simp add: extends_Nil)
next
  case (Cons a as)
  obtain g1 where one: "addToGroup g a t = Inr g1" "extends g [(a, t)] g1"
    using addToGroup_extends by blast
  obtain g2 where rest: "forAssignees as t g1 = Inr g2" "extends g1 (map (\<lambda>k. (k, t)) as) g2"
    using Cons.IH by blast
  have "extends g ([(a, t)] @ map (\<lambda>k. (k, t)) as) g2"
    using one(2) rest(2) by (rule extends_trans)
  with one(1) rest(1) show ?case by simp
qed

lemma groupLoop_extends:
  "\<exists>g'. groupLoop ts g = Inr g' \<and> extends g (concat (map entries_spec ts)) g'"
proof (induction ts arbitrary: g)
  case Nil
  show ?case by (simp add: extends_Nil)
next
  case (Cons t ts)
  have "\<exists>g1. (if length (assignees t) = 0 then addToGroup g ''unassigned'' t
               else forAssignees (assignees t) t g) = Inr g1
           \<and> extends g (entries_spec t) g1"
    using addToGroup_extends [of g "''unassigned''" t] forAssignees_extends [of "assignees t" t g]
    by (simp add: entries_spec_def groupKeys_spec_def)
  then obtain g1 where one:
    "(if length (assignees t) = 0 then addToGroup g ''unassigned'' t
      else forAssignees (assignees t) t g) = Inr g1"
    "extends g (entries_spec t) g1"
    by blast
  obtain g2 where rest: "groupLoop ts g1 = Inr g2" "extends g1 (concat (map entries_spec ts)) g2"
    using Cons.IH by blast
  have "extends g (entries_spec t @ concat (map entries_spec ts)) g2"
    using one(2) rest(2) by (rule extends_trans)
  moreover have "groupLoop (t # ts) g = Inr g2"
    using one(1) rest(1) by (simp del: length_0_conv)
  ultimately show ?case by simp
qed

lemma entries_of_key:
  "map snd (filter (\<lambda>kt. fst kt = k) (concat (map entries_spec ts)))
     = concat (map (\<lambda>t. replicate (count_list (groupKeys_spec t) k) t) ts)"
proof -
  have one: "map snd (filter (\<lambda>kt. fst kt = k) (map (\<lambda>k'. (k', t)) ks))
      = replicate (count_list ks k) t" for t :: task and ks
    by (induction ks) auto
  show ?thesis
    by (induction ts) (simp_all add: entries_spec_def one)
qed

lemma entries_length:
  "length (concat (map entries_spec ts)) = sum_list (map (\<lambda>t. max 1 (length (assignees t))) ts)"
proof (induction ts)
  case Nil
  show ?case by simp
next
  case (Cons t ts)
  have "length (entries_spec t) = max 1 (length (assignees t))"
    by (cases "assignees t") (simp_all add: entries_spec_def groupKeys_spec_def)
  with Cons show ?case by simp
qed

lemma entries_keys:
  "fst ` set (concat (map entries_spec ts)) = (\<Union>t\<in>set ts. set (groupKeys_spec t))"
proof -
  have one: "fst ` set (entries_spec t) = set (groupKeys_spec t)" for t
    by (force simp: entries_spec_def)
  have "fst ` set (concat (map entries_spec ts)) = (\<Union>t\<in>set ts. fst ` set (entries_spec t))"
    by (simp add: image_UN)
  then show ?thesis
    by (simp only: one)
qed

lemma entries_no_key:
  "k \<notin> (\<Union>t\<in>set ts. set (groupKeys_spec t)) \<Longrightarrow>
   concat (map (\<lambda>t. replicate (count_list (groupKeys_spec t) k) t) ts) = []"
  by (induction ts) (auto simp: count_list_0_iff)

text \<open>
  C7. \<open>groupByAssignee\<close> returns a map (it never throws). The bucket of a key holds,
  in the order of the collection, each task once for every occurrence of the key among
  the task's keys: the sentinel "unassigned" for a task with no assignee, otherwise
  its assignees. The keys of the map are exactly the keys of the tasks, each once.
  So the sizes of the groups add up to the sum of \<open>max(1, assignees.length)\<close> over
  the collection, and the empty collection gives the empty map.
\<close>

theorem groupByAssignee_fan_out:
  "(\<exists>g. groupByAssignee tasks = Inr g
      \<and> groupSizes g = sum_list (map (\<lambda>t. max 1 (length (assignees t))) tasks)
      \<and> (\<forall>k. bucketOf g k
            = concat (map (\<lambda>t. replicate (count_list (groupKeys_spec t) k) t) tasks))
      \<and> set (map fst g) = (\<Union>t\<in>set tasks. set (groupKeys_spec t))
      \<and> distinct (map fst g))
   \<and> groupByAssignee [] = Inr []"
proof -
  obtain g where run: "groupLoop tasks [] = Inr g"
    and ext: "extends [] (concat (map entries_spec tasks)) g"
    using groupLoop_extends by blast
  have "groupSizes g = sum_list (map (\<lambda>t. max 1 (length (assignees t))) tasks)"
    using ext by (simp add: extends_def entries_length groupSizes_def)
  moreover have keys: "set (map fst g) = (\<Union>t\<in>set tasks. set (groupKeys_spec t))"
  proof -
    have "set (map fst g) = fst ` set (concat (map entries_spec tasks))"
      using extends_keys [OF ext] by simp
    then show ?thesis
      by (simp only: entries_keys)
  qed
  moreover have "distinct (map fst g)"
    using ext by (simp add: extends_def)
  moreover have "bucketOf g k
      = concat (map (\<lambda>t. replicate (count_list (groupKeys_spec t) k) t) tasks)" for k
  proof (cases "k \<in> (\<Union>t\<in>set tasks. set (groupKeys_spec t))")
    case True
    then have "k \<in> fst ` set (concat (map entries_spec tasks))"
      by (simp only: entries_keys)
    moreover have "map_of g k =
        (if k \<in> fst ` set (concat (map entries_spec tasks))
         then Some (bucketOf [] k
                @ map snd (filter (\<lambda>kt. fst kt = k) (concat (map entries_spec tasks))))
         else map_of [] k)"
      using ext by (rule extends_lookup)
    ultimately have "map_of g k
        = Some (map snd (filter (\<lambda>kt. fst kt = k) (concat (map entries_spec tasks))))"
      by (simp add: bucketOf_def)
    then show ?thesis
      by (simp add: bucketOf_def entries_of_key)
  next
    case False
    then have "map_of g k = None"
      using keys by (simp add: map_of_None_keys)
    with False show ?thesis
      by (simp add: bucketOf_def entries_no_key)
  qed
  ultimately show ?thesis
    using run by (simp add: groupByAssignee_def)
qed

text \<open>
  One task assigned to two users is in the group of each; the group sizes add up to 2.
\<close>

theorem groupByAssignee_fan_out_witness:
  "groupByAssignee [exampleTask ''a'' OPEN [''alice'', ''bob''] None 0 None]
     = Inr [(''alice'', [exampleTask ''a'' OPEN [''alice'', ''bob''] None 0 None]),
            (''bob'', [exampleTask ''a'' OPEN [''alice'', ''bob''] None 0 None])]
   \<and> groupSizes [(''alice'', [exampleTask ''a'' OPEN [''alice'', ''bob''] None 0 None]),
            (''bob'', [exampleTask ''a'' OPEN [''alice'', ''bob''] None 0 None])] = 2"
  using groupByAssignee_fan_out [of "[exampleTask ''a'' OPEN [''alice'', ''bob''] None 0 None]"]
  by (simp add: groupByAssignee_def addToGroup_def pushTask_def mapHas_def exampleTask_def
      groupSizes_def)

text \<open>
  C10. The sentinel key is not kept apart from user names: of a task with no assignee
  and a task assigned to the user "unassigned", both are in the one bucket
  "unassigned", which is the only bucket.
\<close>

theorem groupByAssignee_sentinel_collision:
  "groupByAssignee
     [exampleTask ''a'' OPEN [] None 0 None,
      exampleTask ''b'' OPEN [''unassigned''] None 0 None]
   = Inr [(''unassigned'',
           [exampleTask ''a'' OPEN [] None 0 None,
            exampleTask ''b'' OPEN [''unassigned''] None 0 None])]
   \<and> assignees (exampleTask ''a'' OPEN [] None 0 None) = []
   \<and> assignees (exampleTask ''b'' OPEN [''unassigned''] None 0 None) = [''unassigned'']"
  by (simp add: groupByAssignee_def addToGroup_def pushTask_def mapHas_def exampleTask_def)

subsection \<open>sortByDueDate\<close>

lemma mset_insertSorted: "mset (insertSorted cmp x ys) = add_mset x (mset ys)"
  by (induction ys) simp_all

lemma mset_arraySort: "mset (arraySort cmp xs) = mset xs"
  by (induction xs) (simp_all add: mset_insertSorted)

lemma set_insertSorted: "set (insertSorted cmp x ys) = insert x (set ys)"
  using mset_insertSorted [of cmp x ys, THEN arg_cong, of set_mset] by simp

lemma sorted_insertSorted:
  assumes total: "\<And>a b. \<not> cmp a b \<le> 0 \<Longrightarrow> cmp b a \<le> (0::int)"
    and trans: "\<And>a b c. cmp a b \<le> 0 \<Longrightarrow> cmp b c \<le> 0 \<Longrightarrow> cmp a c \<le> 0"
    and "sorted_wrt (\<lambda>a b. cmp a b \<le> 0) ys"
  shows "sorted_wrt (\<lambda>a b. cmp a b \<le> 0) (insertSorted cmp x ys)"
  using assms(3)
proof (induction ys)
  case Nil
  show ?case by simp
next
  case (Cons y ys)
  show ?case
  proof (cases "cmp x y \<le> 0")
    case True
    then have "\<forall>z\<in>set ys. cmp x z \<le> 0"
      using Cons.prems trans by auto
    with True Cons.prems show ?thesis by simp
  next
    case False
    then have "cmp y x \<le> 0" by (rule total)
    with False Cons show ?thesis
      by (auto simp: set_insertSorted)
  qed
qed

lemma sorted_arraySort:
  assumes "\<And>a b. \<not> cmp a b \<le> 0 \<Longrightarrow> cmp b a \<le> (0::int)"
    and "\<And>a b c. cmp a b \<le> 0 \<Longrightarrow> cmp b c \<le> 0 \<Longrightarrow> cmp a c \<le> 0"
  shows "sorted_wrt (\<lambda>a b. cmp a b \<le> 0) (arraySort cmp xs)"
proof (induction xs)
  case Nil
  show ?case by simp
next
  case (Cons x xs)
  from assms Cons show ?case
    unfolding arraySort.simps by (rule sorted_insertSorted)
qed

text \<open>Stability: an element is never moved behind one of its own class.\<close>

lemma filter_insertSorted:
  assumes "\<And>y. P x \<Longrightarrow> P y \<Longrightarrow> cmp x y \<le> (0::int)"
  shows "filter P (insertSorted cmp x ys) = (if P x then x # filter P ys else filter P ys)"
  using assms by (induction ys) auto

lemma filter_arraySort:
  assumes "\<And>x y. P x \<Longrightarrow> P y \<Longrightarrow> cmp x y \<le> (0::int)"
  shows "filter P (arraySort cmp xs) = filter P xs"
proof (induction xs)
  case Nil
  show ?case by simp
next
  case (Cons x xs)
  have "filter P (insertSorted cmp x (arraySort cmp xs))
      = (if P x then x # filter P (arraySort cmp xs) else filter P (arraySort cmp xs))"
    using assms by (intro filter_insertSorted) simp
  with Cons show ?case by simp
qed

lemma sorted_wrt_split:
  assumes "sorted_wrt R ys" and "\<And>a b. \<not> P a \<Longrightarrow> P b \<Longrightarrow> \<not> R a b"
  shows "ys = filter P ys @ filter (\<lambda>t. \<not> P t) ys"
  using assms(1)
proof (induction ys)
  case Nil
  show ?case by simp
next
  case (Cons y ys)
  show ?case
  proof (cases "P y")
    case True
    with Cons show ?thesis by simp
  next
    case False
    then have "\<forall>b\<in>set ys. \<not> P b"
      using Cons.prems assms(2) by auto
    then have "filter P ys = []" "filter (\<lambda>t. \<not> P t) ys = ys"
      by (simp_all add: filter_empty_conv filter_id_conv)
    with False show ?thesis by simp
  qed
qed

lemma compareDueDate_total:
  "\<not> compareDueDate asc a b \<le> 0 \<Longrightarrow> compareDueDate asc b a \<le> 0"
  by (auto simp: compareDueDate_def Let_def split: option.splits if_splits)

lemma compareDueDate_trans:
  "compareDueDate asc a b \<le> 0 \<Longrightarrow> compareDueDate asc b c \<le> 0 \<Longrightarrow> compareDueDate asc a c \<le> 0"
  by (auto simp: compareDueDate_def Let_def split: option.splits if_splits)

lemma compareDueDate_same:
  "dueDate a = dueDate b \<Longrightarrow> compareDueDate asc a b \<le> 0"
  by (auto simp: compareDueDate_def Let_def split: option.splits)

lemma compareDueDate_undated_dated:
  "\<not> dueDate a \<noteq> None \<Longrightarrow> dueDate b \<noteq> None \<Longrightarrow> \<not> compareDueDate asc a b \<le> 0"
  by (auto simp: compareDueDate_def Let_def split: option.splits)

lemma compareDueDate_dates:
  "dueDate a = Some da \<Longrightarrow> dueDate b = Some db \<Longrightarrow>
   compareDueDate asc a b \<le> 0 \<longleftrightarrow> (if asc then da \<le> db else db \<le> da)"
  by (simp add: compareDueDate_def Let_def)

lemma sorted_dates:
  assumes "sorted_wrt (\<lambda>a b. compareDueDate asc a b \<le> 0) ys"
  shows "sorted_wrt (\<lambda>da db. if asc then da \<le> db else db \<le> da) (List.map_filter dueDate ys)"
proof -
  have "sorted_wrt (\<lambda>a b. compareDueDate asc a b \<le> 0) (filter (\<lambda>t. dueDate t \<noteq> None) ys)"
    using assms by (rule sorted_wrt_filter)
  then have "sorted_wrt (\<lambda>a b. if asc then the (dueDate a) \<le> the (dueDate b)
                               else the (dueDate b) \<le> the (dueDate a))
      (filter (\<lambda>t. dueDate t \<noteq> None) ys)"
  proof (rule sorted_wrt_mono_rel [rotated])
    fix a b
    assume "a \<in> set (filter (\<lambda>t. dueDate t \<noteq> None) ys)"
      and "b \<in> set (filter (\<lambda>t. dueDate t \<noteq> None) ys)"
      and "compareDueDate asc a b \<le> 0"
    then show "if asc then the (dueDate a) \<le> the (dueDate b)
        else the (dueDate b) \<le> the (dueDate a)"
      using compareDueDate_dates [of a "the (dueDate a)" b "the (dueDate b)" asc] by auto
  qed
  then show ?thesis
    by (simp add: List.map_filter_def sorted_wrt_map comp_def)
qed

lemma sortByDueDate_eq:
  "sortByDueDate h tasks ascending =
     (h @ [arraySort (compareDueDate (case ascending of None \<Rightarrow> True | Some b \<Rightarrow> b)) (h ! tasks)],
      length h)"
  by (simp add: sortByDueDate_def spread_def sortInPlace_def)

text \<open>
  C6. \<open>sortByDueDate\<close> leaves every array of the heap as it was, the input among them,
  and returns a new array. The result is a permutation of the input; its tasks with a
  due date come first, all those without one after them, whatever the flag; the due
  dates are in ascending order when the flag is true or left out and in descending
  order when it is false; and the tasks of any one due date, as well as the tasks
  without one, are in the order they had in the input.
\<close>

theorem sortByDueDate_stable_undated_last:
  "tasks < length h \<Longrightarrow>
   (case sortByDueDate h tasks ascending of
      (h', res) \<Rightarrow>
        take (length h) h' = h \<and> h' ! tasks = h ! tasks \<and> res = length h
        \<and> mset (h' ! res) = mset (h ! tasks)
        \<and> h' ! res = filter (\<lambda>t. dueDate t \<noteq> None) (h' ! res)
                         @ filter (\<lambda>t. dueDate t = None) (h' ! res)
        \<and> sorted_wrt
             (\<lambda>da db. if (case ascending of None \<Rightarrow> True | Some b \<Rightarrow> b) then da \<le> db
                       else db \<le> da)
             (List.map_filter dueDate (h' ! res))
        \<and> (\<forall>d. filter (\<lambda>t. dueDate t = d) (h' ! res)
                  = filter (\<lambda>t. dueDate t = d) (h ! tasks)))"
proof -
  assume valid: "tasks < length h"
  define asc where "asc = (case ascending of None \<Rightarrow> True | Some b \<Rightarrow> b)"
  define ys where "ys = arraySort (compareDueDate asc) (h ! tasks)"
  have run: "sortByDueDate h tasks ascending = (h @ [ys], length h)"
    by (simp add: sortByDueDate_eq ys_def asc_def)
  have ordered: "sorted_wrt (\<lambda>a b. compareDueDate asc a b \<le> 0) ys"
    unfolding ys_def by (rule sorted_arraySort) (fact compareDueDate_total compareDueDate_trans)+
  have perm: "mset ys = mset (h ! tasks)"
    by (simp add: ys_def mset_arraySort)
  have split: "ys = filter (\<lambda>t. dueDate t \<noteq> None) ys @ filter (\<lambda>t. \<not> dueDate t \<noteq> None) ys"
    using ordered by (rule sorted_wrt_split) (fact compareDueDate_undated_dated)
  have dates: "sorted_wrt (\<lambda>da db. if asc then da \<le> db else db \<le> da) (List.map_filter dueDate ys)"
    using ordered by (rule sorted_dates)
  have stable: "filter (\<lambda>t. dueDate t = d) ys = filter (\<lambda>t. dueDate t = d) (h ! tasks)" for d
    unfolding ys_def by (rule filter_arraySort) (simp add: compareDueDate_same)
  have "(h @ [ys]) ! tasks = h ! tasks"
    using valid by (simp add: nth_append)
  moreover have "ys = filter (\<lambda>t. dueDate t \<noteq> None) ys @ filter (\<lambda>t. dueDate t = None) ys"
    using split by simp
  ultimately show ?thesis
    using perm dates stable unfolding run asc_def by simp
qed

text \<open>
  Five tasks, due never, at 200, never, at 100 and at 200: descending gives b, e, d, a, c
  in a second array and leaves the first alone; the default order gives d, b, e, a, c.
\<close>

theorem sortByDueDate_stable_undated_last_witness:
  "sortByDueDate
     [[exampleTask ''a'' OPEN [] None 0 None,
       exampleTask ''b'' OPEN [] None 0 (Some 200),
       exampleTask ''c'' OPEN [] None 0 None,
       exampleTask ''d'' OPEN [] None 0 (Some 100),
       exampleTask ''e'' OPEN [] None 0 (Some 200)]] 0 (Some False)
   = ([[exampleTask ''a'' OPEN [] None 0 None,
        exampleTask ''b'' OPEN [] None 0 (Some 200),
        exampleTask ''c'' OPEN [] None 0 None,
        exampleTask ''d'' OPEN [] None 0 (Some 100),
        exampleTask ''e'' OPEN [] None 0 (Some 200)],
       [exampleTask ''b'' OPEN [] None 0 (Some 200),
        exampleTask ''e'' OPEN [] None 0 (Some 200),
        exampleTask ''d'' OPEN [] None 0 (Some 100),
        exampleTask ''a'' OPEN [] None 0 None,
        exampleTask ''c'' OPEN [] None 0 None]], 1)
   \<and> snd (sortByDueDate
     [[exampleTask ''a'' OPEN [] None 0 None,
       exampleTask ''b'' OPEN [] None 0 (Some 200),
       exampleTask ''c'' OPEN [] None 0 None,
       exampleTask ''d'' OPEN [] None 0 (Some 100),
       exampleTask ''e'' OPEN [] None 0 (Some 200)]] 0 None) = 1
   \<and> fst (sortByDueDate
     [[exampleTask ''a'' OPEN [] None 0 None,
       exampleTask ''b'' OPEN [] None 0 (Some 200),
       exampleTask ''c'' OPEN [] None 0 None,
       exampleTask ''d'' OPEN [] None 0 (Some 100),
       exampleTask ''e'' OPEN [] None 0 (Some 200)]] 0 None) ! 1
   = [exampleTask ''d'' OPEN [] None 0 (Some 100),
      exampleTask ''b'' OPEN [] None 0 (Some 200),
      exampleTask ''e'' OPEN [] None 0 (Some 200),
      exampleTask ''a'' OPEN [] None 0 None,
      exampleTask ''c'' OPEN [] None 0 None]"
  using sortByDueDate_stable_undated_last [of 0
     "[[exampleTask ''a'' OPEN [] None 0 None,
       exampleTask ''b'' OPEN [] None 0 (Some 200),
       exampleTask ''c'' OPEN [] None 0 None,
       exampleTask ''d'' OPEN [] None 0 (Some 100),
       exampleTask ''e'' OPEN [] None 0 (Some 200)]]" "Some False"]
  by (simp add: sortByDueDate_eq compareDueDate_def exampleTask_def)

subsection \<open>filterByDateRange\<close>

text \<open>
  C8. \<open>filterByDateRange\<close> keeps, in their order, exactly the tasks for which the start
  bound is absent or at most \<open>createdAt\<close> and the end bound is absent or at least
  \<open>createdAt\<close>. A task is kept when its \<open>createdAt\<close> is the start bound, the end bound
  or both (the other bound absent), and without bounds every task is kept.
\<close>

theorem filterByDateRange_inclusive:
  "filterByDateRange tasks startDate endDate = filter (inRange_spec startDate endDate) tasks
   \<and> (t \<in> set (filterByDateRange tasks startDate endDate) \<longleftrightarrow>
        t \<in> set tasks
        \<and> (startDate = None \<or> (\<exists>s. startDate = Some s \<and> s \<le> createdAt t))
        \<and> (endDate = None \<or> (\<exists>e. endDate = Some e \<and> createdAt t \<le> e)))
   \<and> (t \<in> set tasks \<longrightarrow>
        t \<in> set (filterByDateRange tasks (Some (createdAt t)) None)
        \<and> t \<in> set (filterByDateRange tasks None (Some (createdAt t)))
        \<and> t \<in> set (filterByDateRange tasks (Some (createdAt t)) (Some (createdAt t))))
   \<and> filterByDateRange tasks None None = tasks"
proof -
  have keep: "(if (case startDate of None \<Rightarrow> False | Some s \<Rightarrow> createdAt x < s) then False
        else if (case endDate of None \<Rightarrow> False | Some e \<Rightarrow> createdAt x > e) then False
        else True) = inRange_spec startDate endDate x" for startDate endDate and x :: task
    by (auto simp: inRange_spec_def split: option.splits)
  have eq: "filterByDateRange tasks startDate endDate = filter (inRange_spec startDate endDate) tasks"
    for startDate endDate
    by (simp only: filterByDateRange_def keep)
  show ?thesis
    unfolding eq by (auto simp: inRange_spec_def split: option.splits)
qed

text \<open>
  Tasks created at 99, 100, 150, 200 and 201, with the bounds 100 and 200: the three
  in the middle are kept, the two at the bounds among them.
\<close>

theorem filterByDateRange_inclusive_witness:
  "filterByDateRange
     [exampleTask ''a'' OPEN [] None 99 None,
      exampleTask ''b'' OPEN [] None 100 None,
      exampleTask ''c'' OPEN [] None 150 None,
      exampleTask ''d'' OPEN [] None 200 None,
      exampleTask ''e'' OPEN [] None 201 None] (Some 100) (Some 200)
   = [exampleTask ''b'' OPEN [] None 100 None,
      exampleTask ''c'' OPEN [] None 150 None,
      exampleTask ''d'' OPEN [] None 200 None]"
  using filterByDateRange_inclusive [of
     "[exampleTask ''a'' OPEN [] None 99 None,
      exampleTask ''b'' OPEN [] None 100 None,
      exampleTask ''c'' OPEN [] None 150 None,
      exampleTask ''d'' OPEN [] None 200 None,
      exampleTask ''e'' OPEN [] None 201 None]" "Some 100" "Some 200"
     "exampleTask ''b'' OPEN [] None 100 None"]
  by (simp add: inRange_spec_def exampleTask_def)

end
